theory Spec2Isabelle
  imports Complex_Main
begin

section \<open>The tooltip builder of \<open>packages/melt/src/lib/builders/Tooltip.svelte.ts\<close>\<close>

text \<open>
  The class \<open>Tooltip\<close> keeps a handful of reactive fields and reacts to DOM events and
  to the callbacks of \<open>window.setTimeout\<close>. The embedding below passes the state
  explicitly: every handler of the source is a function from the state before the
  handler runs to the state after it has run to completion (handlers never interleave
  on the event loop). The timers of the window are part of the state, so that
  \<open>clearTimeout\<close> and the firing of a callback are transitions like any other.
\<close>

subsection \<open>Data\<close>

datatype OpenReason = Pointer | Focus

text \<open>
  The closures handed to \<open>setTimeout\<close>: the one of \<open>#openTooltip\<close> captures
  \<open>reason\<close>, the one of \<open>#closeTooltip\<close> captures \<open>isBlur\<close>, and the one of
  \<open>onfocusout\<close> is the resolver of the awaited promise, after which the rest of
  that handler runs.
\<close>

datatype callback = OpenCb OpenReason | CloseCb bool | FocusOutCb

datatype timer = Timer (handle: nat) (delay: int) (callback: callback)

text \<open>
  The props after \<open>extract\<close> has applied the defaults (only the four the handlers read).
\<close>

record TooltipProps =
  closeOnPointerDown :: bool
  openDelay :: int
  closeDelay :: int
  disableHoverableContent :: bool

definition defaultProps :: TooltipProps where
  "defaultProps = \<lparr>closeOnPointerDown = True, openDelay = 1000, closeDelay = 0,
     disableHoverableContent = False\<rparr>"

text \<open>
  Modelled from the spec: the class \<open>Synced\<close> (\<open>$lib/Synced.svelte\<close>), whose source is
  missing. The spec (9) describes it as a box that holds an internal value, reads and
  writes of which go to an external owner only when a getter is supplied. The field
  \<open>open\<close> below is that internal value: the tooltip is taken in its uncontrolled mode
  (no getter passed as \<open>props.open\<close>), where reading \<open>this.open\<close> gives the value last
  written.

  The other fields are the private fields of the class, with \<open>null\<close> as \<open>None\<close>.
  \<open>timers\<close> and \<open>lastHandle\<close> belong to the window: the pending timeouts, oldest first,
  and the last handle \<open>setTimeout\<close> gave out. Only the timeouts of this tooltip are kept
  there. When a pending timeout fires is left open: any of them may fire at any moment,
  which covers every order the delays can produce.
\<close>

record Tooltip =
  "open" :: bool
  openReason :: "OpenReason option"
  clickedTrigger :: bool
  isPointerInsideTrigger :: bool
  isPointerInsideContent :: bool
  isMouseInTooltipArea :: bool
  openTimeout :: "nat option"
  closeTimeout :: "nat option"
  timers :: "timer list"
  lastHandle :: nat

definition initial :: "bool \<Rightarrow> Tooltip" where
  "initial open0 = \<lparr>open = open0, openReason = None, clickedTrigger = False,
     isPointerInsideTrigger = False, isPointerInsideContent = False,
     isMouseInTooltipArea = False, openTimeout = None, closeTimeout = None,
     timers = [], lastHandle = 0\<rparr>"

subsection \<open>The window's timers\<close>

text \<open>
  \<open>window.setTimeout\<close> returns a fresh handle, an integer greater than zero, and
  \<open>window.clearTimeout\<close> removes the timeout with the given handle, if there is one.
\<close>

definition setTimeout :: "callback \<Rightarrow> int \<Rightarrow> Tooltip \<Rightarrow> nat \<times> Tooltip" where
  "setTimeout cb ms s =
     (let h = Suc (lastHandle s)
      in (h, s\<lparr>timers := timers s @ [Timer h ms cb], lastHandle := h\<rparr>))"

definition clearTimeout :: "nat \<Rightarrow> Tooltip \<Rightarrow> Tooltip" where
  "clearTimeout h s = s\<lparr>timers := filter (\<lambda>t. handle t \<noteq> h) (timers s)\<rparr>"

text \<open>
  The source tests the fields by truthiness, \<open>if (this.#openTimeout)\<close>: a
  \<open>number | null\<close> is truthy when it is neither \<open>null\<close> nor \<open>0\<close>.
\<close>

fun truthy :: "nat option \<Rightarrow> bool" where
  "truthy None = False"
| "truthy (Some h) = (h \<noteq> 0)"

text \<open>
  The block \<open>if (this.#openTimeout) { window.clearTimeout(this.#openTimeout);
  this.#openTimeout = null; }\<close>, which the source repeats in four places, and its
  twin for \<open>#closeTimeout\<close> in \<open>#openTooltip\<close>. The test \<open>h \<noteq> 0\<close> is the
  truthiness of the field when it holds the handle \<open>h\<close>.
\<close>

definition clearOpenTimeout :: "Tooltip \<Rightarrow> Tooltip" where
  "clearOpenTimeout s =
     (case openTimeout s of
        None \<Rightarrow> s
      | Some h \<Rightarrow> if h \<noteq> 0 then (clearTimeout h s)\<lparr>openTimeout := None\<rparr> else s)"

definition clearCloseTimeout :: "Tooltip \<Rightarrow> Tooltip" where
  "clearCloseTimeout s =
     (case closeTimeout s of
        None \<Rightarrow> s
      | Some h \<Rightarrow> if h \<noteq> 0 then (clearTimeout h s)\<lparr>closeTimeout := None\<rparr> else s)"

subsection \<open>\<open>#openTooltip\<close> and \<open>#closeTooltip\<close>\<close>

definition openTooltip :: "TooltipProps \<Rightarrow> OpenReason \<Rightarrow> Tooltip \<Rightarrow> Tooltip" where
  "openTooltip p reason s =
     (let s1 = clearCloseTimeout s
      in if \<not> truthy (openTimeout s1)
         then (let (h, s2) = setTimeout (OpenCb reason) (openDelay p) s1
               in s2\<lparr>openTimeout := Some h\<rparr>)
         else s1)"

definition closeTooltip :: "TooltipProps \<Rightarrow> bool \<Rightarrow> Tooltip \<Rightarrow> Tooltip" where
  "closeTooltip p isBlur s =
     (let s1 = clearOpenTimeout s
      in if isBlur \<and> isMouseInTooltipArea s1
         then s1\<lparr>openReason := Some Pointer\<rparr>
         else if \<not> truthy (closeTimeout s1)
         then (let (h, s2) = setTimeout (CloseCb isBlur) (closeDelay p) s1
               in s2\<lparr>closeTimeout := Some h\<rparr>)
         else s1)"

text \<open>The bodies of the two timer callbacks and the rest of \<open>onfocusout\<close>.\<close>

definition openCallback :: "OpenReason \<Rightarrow> Tooltip \<Rightarrow> Tooltip" where
  "openCallback reason s =
     s\<lparr>open := True,
       openReason := (case openReason s of None \<Rightarrow> Some reason | Some r \<Rightarrow> Some r),
       openTimeout := None\<rparr>"

definition closeCallback :: "bool \<Rightarrow> Tooltip \<Rightarrow> Tooltip" where
  "closeCallback isBlur s =
     s\<lparr>open := False, openReason := None,
       clickedTrigger := (if isBlur then False else clickedTrigger s),
       closeTimeout := None\<rparr>"

text \<open>
  \<open>focusWithin\<close> is the value of \<open>contentEl?.contains(document.activeElement) ||
  triggerEl?.contains(document.activeElement)\<close> when the continuation runs.
\<close>

definition focusOutContinuation :: "bool \<Rightarrow> Tooltip \<Rightarrow> Tooltip" where
  "focusOutContinuation focusWithin s = (if focusWithin then s else s\<lparr>open := False\<rparr>)"

subsection \<open>The grace area\<close>

text \<open>
  \<open>makeHullFromElements\<close> (\<open>$lib/utils/polygon\<close>) and \<open>isPointerInGraceArea\<close>
  (\<open>$lib/utils/pointer\<close>) are imported by the builder; their sources are not part of
  the file verified here. Coordinates are exact rationals; an element is given by its
  bounding rectangle and the pointer by its client position.
\<close>

type_synonym point = "rat \<times> rat"

datatype rect = Rect (rect_left: rat) (rect_top: rat) (rect_right: rat) (rect_bottom: rat)

definition corners :: "rect \<Rightarrow> point list" where
  "corners r = [(rect_left r, rect_top r), (rect_right r, rect_top r),
     (rect_right r, rect_bottom r), (rect_left r, rect_bottom r)]"

definition cross :: "point \<Rightarrow> point \<Rightarrow> point \<Rightarrow> rat" where
  "cross c a b = (fst a - fst c) * (snd b - snd c) - (snd a - snd c) * (fst b - fst c)"

definition dot :: "point \<Rightarrow> point \<Rightarrow> point \<Rightarrow> rat" where
  "dot c a b = (fst a - fst c) * (fst b - fst c) + (snd a - snd c) * (snd b - snd c)"

text \<open>
  Seen from \<open>c\<close>, the point \<open>b\<close> lies strictly to the left of the ray towards \<open>a\<close>, or
  on that ray beyond \<open>c\<close>.
\<close>

definition leftOfRay :: "point \<Rightarrow> point \<Rightarrow> point \<Rightarrow> bool" where
  "leftOfRay c a b = (0 < cross c a b \<or> (cross c a b = 0 \<and> 0 < dot c a b))"

text \<open>
  Modelled from the spec: \<open>makeHullFromElements\<close>, whose source is missing. The spec
  (4.2, \<open>buildHull\<close>) says it computes the convex hull of the corner points of all given
  rectangles. A polygon is represented here by a list of points and stands for their
  convex hull, so the corner points themselves represent the hull.
\<close>

definition makeHullFromElements :: "rect list \<Rightarrow> point list" where
  "makeHullFromElements els = concat (map corners els)"

text \<open>
  Modelled from the spec: \<open>isPointerInGraceArea\<close>, whose source is missing. The spec
  (4.2, \<open>contains\<close>) says it is a point-in-polygon test in which boundary points count
  as inside. A point is outside the convex hull of finitely many points exactly when
  all of them lie in a half-plane that is open at the point: then one of them, \<open>a\<close>, is
  the first in counter-clockwise order, and every one of them is \<open>leftOfRay\<close> of \<open>a\<close>.
  The tolerance the spec mentions in passing has no stated value and is left out.
\<close>

definition isPointerInGraceArea :: "point \<Rightarrow> point list \<Rightarrow> bool" where
  "isPointerInGraceArea e polygon =
     (polygon \<noteq> [] \<and> \<not> list_ex (\<lambda>a. list_all (leftOfRay e a) polygon) polygon)"

subsection \<open>The event handlers\<close>

text \<open>
  The listener on \<open>document\<close> for \<open>mousemove\<close>. \<open>contentEl\<close> and \<open>triggerEl\<close> are the
  results of the two \<open>getElementById\<close> calls (the bounding rectangle of the element, or
  \<open>None\<close> for \<open>null\<close>) and \<open>e\<close> is the position of the pointer. \<open>#closeTooltip()\<close> is
  called without an argument: \<open>isBlur\<close> is \<open>undefined\<close>, which is falsy.
\<close>

definition document_onmousemove ::
  "TooltipProps \<Rightarrow> rect option \<Rightarrow> rect option \<Rightarrow> point \<Rightarrow> Tooltip \<Rightarrow> Tooltip" where
  "document_onmousemove p contentEl triggerEl e s =
     (case (contentEl, triggerEl) of
        (Some c, Some t) \<Rightarrow>
          (let polygonElements = (if disableHoverableContent p then [t] else [t, c]);
               polygon = makeHullFromElements polygonElements;
               s1 = s\<lparr>isMouseInTooltipArea :=
                      isPointerInsideContent s \<or> isPointerInsideTrigger s
                      \<or> isPointerInGraceArea e polygon\<rparr>
           in if openReason s1 \<noteq> Some Pointer then s1
              else if \<not> isMouseInTooltipArea s1 then closeTooltip p False s1
              else s1)
      | _ \<Rightarrow> if open s then closeTooltip p False s else s)"

text \<open>
  \<open>onfocusout\<close> of the shared props: it awaits a promise that a timeout without delay
  resolves; the rest of the handler is \<open>focusOutContinuation\<close>.
\<close>

definition sharedProps_onfocusout :: "Tooltip \<Rightarrow> Tooltip" where
  "sharedProps_onfocusout s = snd (setTimeout FocusOutCb 0 s)"

definition trigger_onpointerdown :: "TooltipProps \<Rightarrow> Tooltip \<Rightarrow> Tooltip" where
  "trigger_onpointerdown p s =
     (if \<not> closeOnPointerDown p then s
      else clearOpenTimeout (s\<lparr>open := False, clickedTrigger := True\<rparr>))"

definition trigger_onpointerenter :: "TooltipProps \<Rightarrow> string \<Rightarrow> Tooltip \<Rightarrow> Tooltip" where
  "trigger_onpointerenter p pointerType s =
     (let s1 = s\<lparr>isPointerInsideTrigger := True\<rparr>
      in if pointerType = ''touch'' then s1 else openTooltip p Pointer s1)"

definition trigger_onpointerleave :: "string \<Rightarrow> Tooltip \<Rightarrow> Tooltip" where
  "trigger_onpointerleave pointerType s =
     (let s1 = s\<lparr>isPointerInsideTrigger := False\<rparr>
      in if pointerType = ''touch'' then s1 else clearOpenTimeout s1)"

definition trigger_onfocus :: "TooltipProps \<Rightarrow> Tooltip \<Rightarrow> Tooltip" where
  "trigger_onfocus p s = (if clickedTrigger s then s else openTooltip p Focus s)"

definition trigger_onblur :: "TooltipProps \<Rightarrow> Tooltip \<Rightarrow> Tooltip" where
  "trigger_onblur p s = closeTooltip p True s"

text \<open>The handlers of the content element take no event: they do not look at it.\<close>

definition content_onpointerenter :: "TooltipProps \<Rightarrow> Tooltip \<Rightarrow> Tooltip" where
  "content_onpointerenter p s = openTooltip p Pointer (s\<lparr>isPointerInsideContent := True\<rparr>)"

definition content_onpointerleave :: "Tooltip \<Rightarrow> Tooltip" where
  "content_onpointerleave s = s\<lparr>isPointerInsideContent := False\<rparr>"

definition content_onpointerdown :: "TooltipProps \<Rightarrow> Tooltip \<Rightarrow> Tooltip" where
  "content_onpointerdown p s = openTooltip p Pointer s"

definition document_onkeydown :: "string \<Rightarrow> Tooltip \<Rightarrow> Tooltip" where
  "document_onkeydown key s =
     (if key \<noteq> ''Escape'' then s else (clearOpenTimeout s)\<lparr>open := False\<rparr>)"

text \<open>
  \<open>#handleScroll\<close>. The target of the event is an \<open>Element\<close>, the \<open>Document\<close>, or
  something else. \<open>triggerEl\<close> is \<open>None\<close> when \<open>getElementById\<close> returns \<open>null\<close>, and
  otherwise holds the value of \<open>target.contains(triggerEl)\<close>.
\<close>

datatype scrollTarget = ElementTarget | DocumentTarget | OtherTarget

definition handleScroll ::
  "TooltipProps \<Rightarrow> scrollTarget \<Rightarrow> bool option \<Rightarrow> Tooltip \<Rightarrow> Tooltip" where
  "handleScroll p target triggerEl s =
     (if \<not> open s then s
      else if target \<noteq> ElementTarget \<and> target \<noteq> DocumentTarget then s
      else if (case triggerEl of None \<Rightarrow> False | Some inside \<Rightarrow> inside) \<or> open s
      then closeTooltip p False s
      else s)"

text \<open>
  A pending timeout fires: the window forgets it and runs its callback. Firing a handle
  that is not pending does nothing.
\<close>

definition timerFires :: "nat \<Rightarrow> bool \<Rightarrow> Tooltip \<Rightarrow> Tooltip" where
  "timerFires h focusWithin s =
     (case find (\<lambda>t. handle t = h) (timers s) of
        None \<Rightarrow> s
      | Some t \<Rightarrow>
          (let s1 = s\<lparr>timers := filter (\<lambda>t. handle t \<noteq> h) (timers s)\<rparr>
           in case callback t of
                OpenCb reason \<Rightarrow> openCallback reason s1
              | CloseCb isBlur \<Rightarrow> closeCallback isBlur s1
              | FocusOutCb \<Rightarrow> focusOutContinuation focusWithin s1))"

subsection \<open>Events and runs\<close>

text \<open>
  Everything that can happen to a tooltip. Pointer events carry their \<open>pointerType\<close>,
  \<open>KeyDown\<close> its \<open>key\<close>. \<open>SetOpen\<close> is the public setter of \<open>open\<close>. The two cleanup
  events are the teardown functions of the effects in \<open>get trigger\<close> and \<open>get content\<close>.
  The \<open>mousemove\<close> listener is attached only while \<open>open\<close> holds (the effect of the
  constructor returns before \<open>on(document, ...)\<close> otherwise).
\<close>

datatype event =
    TriggerPointerDown
  | TriggerPointerEnter string
  | TriggerPointerLeave string
  | TriggerFocus
  | TriggerBlur
  | FocusOut
  | ContentPointerEnter string
  | ContentPointerLeave string
  | ContentPointerDown
  | KeyDown string
  | Scroll scrollTarget "bool option"
  | MouseMove "rect option" "rect option" point
  | TimerFires nat bool
  | SetOpen bool
  | TriggerCleanup
  | ContentCleanup

fun step :: "TooltipProps \<Rightarrow> Tooltip \<Rightarrow> event \<Rightarrow> Tooltip" where
  "step p s TriggerPointerDown = trigger_onpointerdown p s"
| "step p s (TriggerPointerEnter pt) = trigger_onpointerenter p pt s"
| "step p s (TriggerPointerLeave pt) = trigger_onpointerleave pt s"
| "step p s TriggerFocus = trigger_onfocus p s"
| "step p s TriggerBlur = trigger_onblur p s"
| "step p s FocusOut = sharedProps_onfocusout s"
| "step p s (ContentPointerEnter pt) = content_onpointerenter p s"
| "step p s (ContentPointerLeave pt) = content_onpointerleave s"
| "step p s ContentPointerDown = content_onpointerdown p s"
| "step p s (KeyDown key) = document_onkeydown key s"
| "step p s (Scroll target triggerEl) = handleScroll p target triggerEl s"
| "step p s (MouseMove contentEl triggerEl e) =
     (if open s then document_onmousemove p contentEl triggerEl e s else s)"
| "step p s (TimerFires h focusWithin) = timerFires h focusWithin s"
| "step p s (SetOpen v) = s\<lparr>open := v\<rparr>"
| "step p s TriggerCleanup = s\<lparr>isPointerInsideTrigger := False\<rparr>"
| "step p s ContentCleanup = s\<lparr>isPointerInsideContent := False\<rparr>"

definition run :: "TooltipProps \<Rightarrow> Tooltip \<Rightarrow> event list \<Rightarrow> Tooltip" where
  "run p s es = foldl (step p) s es"

text \<open>
  The states a tooltip can be in: it starts with \<open>open\<close> at its default (or at the
  static value passed as \<open>props.open\<close>), and every event moves it on, under whatever
  the props are at that moment.
\<close>

inductive reachable :: "Tooltip \<Rightarrow> bool" where
  reachable_initial: "reachable (initial open0)"
| reachable_step: "reachable s \<Longrightarrow> reachable (step p s e)"

text \<open>
  What the fields and the window's timers have to do with each other: every pending
  timeout has a positive handle that \<open>setTimeout\<close> has given out, a pending open
  callback is the one \<open>#openTimeout\<close> names and a pending close callback the one
  \<open>#closeTimeout\<close> names, a field that is set names a pending callback of its kind, no
  two pending timeouts share a handle, and the two fields are never both set.
\<close>

fun isOpenCb :: "timer \<Rightarrow> bool" where
  "isOpenCb (Timer h d (OpenCb r)) = True"
| "isOpenCb t = False"

fun isCloseCb :: "timer \<Rightarrow> bool" where
  "isCloseCb (Timer h d (CloseCb b)) = True"
| "isCloseCb t = False"

definition consistent :: "Tooltip \<Rightarrow> bool" where
  "consistent s =
     ((\<forall>t\<in>set (timers s). 0 < handle t \<and> handle t \<le> lastHandle s
          \<and> (isOpenCb t \<longrightarrow> openTimeout s = Some (handle t))
          \<and> (isCloseCb t \<longrightarrow> closeTimeout s = Some (handle t)))
      \<and> (\<forall>h. openTimeout s = Some h \<longrightarrow> (\<exists>t\<in>set (timers s). handle t = h \<and> isOpenCb t))
      \<and> (\<forall>h. closeTimeout s = Some h \<longrightarrow> (\<exists>t\<in>set (timers s). handle t = h \<and> isCloseCb t))
      \<and> distinct (map handle (timers s))
      \<and> (openTimeout s = None \<or> closeTimeout s = None))"

text \<open>
  The callback a pending handle would run, and the events that run the close callback
  of a blur (the only code that resets \<open>#clickedTrigger\<close>).
\<close>

definition pendingCallback :: "Tooltip \<Rightarrow> nat \<Rightarrow> callback option" where
  "pendingCallback s h = map_option callback (find (\<lambda>t. handle t = h) (timers s))"

fun firesBlurClose :: "Tooltip \<Rightarrow> event \<Rightarrow> bool" where
  "firesBlurClose s (TimerFires h focusWithin) = (pendingCallback s h = Some (CloseCb True))"
| "firesBlurClose s e = False"

subsection \<open>Some concrete states\<close>

text \<open>
  The rectangles of the example in the spec (trigger above, content below, a gap
  between them), and a few states reached from the initial one under the default props:
  opened by focus; the same with a close pending after a scroll; the same with the
  pointer over the trigger and one \<open>mousemove\<close> seen; opened by hover; and opened by
  hover with the pointer having left the trigger towards the content.
\<close>

definition exTrigger :: rect where
  "exTrigger = Rect 0 0 50 20"

definition exContent :: rect where
  "exContent = Rect 0 40 50 60"

definition exFocusOpen :: Tooltip where
  "exFocusOpen = run defaultProps (initial False) [TriggerFocus, TimerFires 1 False]"

definition exClosing :: Tooltip where
  "exClosing = step defaultProps exFocusOpen (Scroll DocumentTarget (Some True))"

definition exFocusHover :: Tooltip where
  "exFocusHover = run defaultProps exFocusOpen
     [TriggerPointerEnter ''mouse'', MouseMove (Some exContent) (Some exTrigger) (25, 10)]"

definition exHoverOpen :: Tooltip where
  "exHoverOpen = run defaultProps (initial False)
     [TriggerPointerEnter ''mouse'', TimerFires 1 False]"

definition exHoverLeft :: Tooltip where
  "exHoverLeft = step defaultProps exHoverOpen (TriggerPointerLeave ''mouse'')"

text \<open>
  And two more: the trigger pressed while the tooltip was open by focus, and a blur
  after that press (the pointer is not in the tooltip area, so the close is scheduled).
\<close>

definition exClicked :: Tooltip where
  "exClicked = step defaultProps exFocusOpen TriggerPointerDown"

definition exClickedBlur :: Tooltip where
  "exClickedBlur = step defaultProps exClicked TriggerBlur"

section \<open>The fields and the window's timers agree\<close>

lemma isOpenCb_not_isCloseCb: "isOpenCb t \<Longrightarrow> \<not> isCloseCb t"
  by (cases t rule: isOpenCb.cases) auto

lemma isOpenCb_iff: "isOpenCb t = (\<exists>r. callback t = OpenCb r)"
  by (cases t rule: isOpenCb.cases) auto

lemma isCloseCb_iff: "isCloseCb t = (\<exists>b. callback t = CloseCb b)"
  by (cases t rule: isCloseCb.cases) auto

lemma consistent_initial: "consistent (initial b)"
  by (simp add: consistent_def initial_def)

lemma consistent_clearOpenTimeout: "consistent s \<Longrightarrow> consistent (clearOpenTimeout s)"
  unfolding consistent_def clearOpenTimeout_def clearTimeout_def
  by (auto split: option.splits simp: distinct_map_filter dest: isOpenCb_not_isCloseCb)

lemma consistent_clearCloseTimeout: "consistent s \<Longrightarrow> consistent (clearCloseTimeout s)"
  unfolding consistent_def clearCloseTimeout_def clearTimeout_def
  by (auto split: option.splits simp: distinct_map_filter dest: isOpenCb_not_isCloseCb)

lemma consistent_nonzero:
  assumes "consistent s"
  shows "openTimeout s \<noteq> Some 0" and "closeTimeout s \<noteq> Some 0"
proof -
  show "openTimeout s \<noteq> Some 0"
  proof
    assume "openTimeout s = Some 0"
    with assms obtain t where "t \<in> set (timers s)" "handle t = 0"
      unfolding consistent_def by blast
    with assms show False unfolding consistent_def by fastforce
  qed
  show "closeTimeout s \<noteq> Some 0"
  proof
    assume "closeTimeout s = Some 0"
    with assms obtain t where "t \<in> set (timers s)" "handle t = 0"
      unfolding consistent_def by blast
    with assms show False unfolding consistent_def by fastforce
  qed
qed

lemma openTimeout_clearOpenTimeout:
  "consistent s \<Longrightarrow> openTimeout (clearOpenTimeout s) = None"
  using consistent_nonzero(1)[of s]
  by (auto simp: clearOpenTimeout_def clearTimeout_def split: option.splits)

lemma closeTimeout_clearCloseTimeout:
  "consistent s \<Longrightarrow> closeTimeout (clearCloseTimeout s) = None"
  using consistent_nonzero(2)[of s]
  by (auto simp: clearCloseTimeout_def clearTimeout_def split: option.splits)

lemma truthy_openTimeout:
  assumes "consistent s"
  shows "truthy (openTimeout s) = (openTimeout s \<noteq> None)"
  using consistent_nonzero(1)[OF assms] by (cases "openTimeout s") auto

lemma truthy_closeTimeout:
  assumes "consistent s"
  shows "truthy (closeTimeout s) = (closeTimeout s \<noteq> None)"
  using consistent_nonzero(2)[OF assms] by (cases "closeTimeout s") auto

lemma consistent_setTimeout_open:
  assumes "consistent s" "openTimeout s = None" "closeTimeout s = None"
  shows "consistent ((snd (setTimeout (OpenCb r) d s))\<lparr>openTimeout := Some (fst (setTimeout (OpenCb r) d s))\<rparr>)"
  using assms unfolding consistent_def setTimeout_def Let_def
  by (auto simp: rev_image_eqI)

lemma consistent_setTimeout_close:
  assumes "consistent s" "openTimeout s = None" "closeTimeout s = None"
  shows "consistent ((snd (setTimeout (CloseCb b) d s))\<lparr>closeTimeout := Some (fst (setTimeout (CloseCb b) d s))\<rparr>)"
  using assms unfolding consistent_def setTimeout_def Let_def
  by (auto simp: rev_image_eqI)

lemma consistent_setTimeout_focusout:
  assumes "consistent s"
  shows "consistent (snd (setTimeout FocusOutCb d s))"
  using assms unfolding consistent_def setTimeout_def Let_def
  by (auto simp: rev_image_eqI)


lemma consistent_update [simp]:
  "consistent (s\<lparr>open := v\<rparr>) = consistent s"
  "consistent (s\<lparr>openReason := r\<rparr>) = consistent s"
  "consistent (s\<lparr>clickedTrigger := c\<rparr>) = consistent s"
  "consistent (s\<lparr>isPointerInsideTrigger := a\<rparr>) = consistent s"
  "consistent (s\<lparr>isPointerInsideContent := b\<rparr>) = consistent s"
  "consistent (s\<lparr>isMouseInTooltipArea := m\<rparr>) = consistent s"
  by (simp_all add: consistent_def)

lemma clearOpenTimeout_fields [simp]:
  "open (clearOpenTimeout s) = open s"
  "openReason (clearOpenTimeout s) = openReason s"
  "clickedTrigger (clearOpenTimeout s) = clickedTrigger s"
  "isPointerInsideTrigger (clearOpenTimeout s) = isPointerInsideTrigger s"
  "isPointerInsideContent (clearOpenTimeout s) = isPointerInsideContent s"
  "isMouseInTooltipArea (clearOpenTimeout s) = isMouseInTooltipArea s"
  "closeTimeout (clearOpenTimeout s) = closeTimeout s"
  "lastHandle (clearOpenTimeout s) = lastHandle s"
  by (simp_all add: clearOpenTimeout_def clearTimeout_def split: option.splits)

lemma clearCloseTimeout_fields [simp]:
  "open (clearCloseTimeout s) = open s"
  "openReason (clearCloseTimeout s) = openReason s"
  "clickedTrigger (clearCloseTimeout s) = clickedTrigger s"
  "isPointerInsideTrigger (clearCloseTimeout s) = isPointerInsideTrigger s"
  "isPointerInsideContent (clearCloseTimeout s) = isPointerInsideContent s"
  "isMouseInTooltipArea (clearCloseTimeout s) = isMouseInTooltipArea s"
  "openTimeout (clearCloseTimeout s) = openTimeout s"
  "lastHandle (clearCloseTimeout s) = lastHandle s"
  by (simp_all add: clearCloseTimeout_def clearTimeout_def split: option.splits)

lemma consistent_openTooltip:
  assumes "consistent s"
  shows "consistent (openTooltip p r s)"
proof -
  let ?s1 = "clearCloseTimeout s"
  have c1: "consistent ?s1" by (rule consistent_clearCloseTimeout[OF assms])
  have n: "closeTimeout ?s1 = None" by (rule closeTimeout_clearCloseTimeout[OF assms])
  show ?thesis
  proof (cases "openTimeout ?s1")
    case None
    then have "openTooltip p r s =
        (snd (setTimeout (OpenCb r) (openDelay p) ?s1))
          \<lparr>openTimeout := Some (fst (setTimeout (OpenCb r) (openDelay p) ?s1))\<rparr>"
      by (simp add: openTooltip_def Let_def split_def)
    with consistent_setTimeout_open[OF c1 None n] show ?thesis by simp
  next
    case (Some h)
    with truthy_openTimeout[OF c1] have "openTooltip p r s = ?s1"
      by (simp add: openTooltip_def Let_def)
    with c1 show ?thesis by simp
  qed
qed

lemma consistent_closeTooltip:
  assumes "consistent s"
  shows "consistent (closeTooltip p b s)"
proof -
  let ?s1 = "clearOpenTimeout s"
  have c1: "consistent ?s1" by (rule consistent_clearOpenTimeout[OF assms])
  have n: "openTimeout ?s1 = None" by (rule openTimeout_clearOpenTimeout[OF assms])
  show ?thesis
  proof (cases "b \<and> isMouseInTooltipArea ?s1")
    case True
    then have "closeTooltip p b s = ?s1\<lparr>openReason := Some Pointer\<rparr>"
      by (simp add: closeTooltip_def Let_def)
    with c1 show ?thesis by simp
  next
    case False
    show ?thesis
    proof (cases "closeTimeout ?s1")
      case None
      with False have "closeTooltip p b s =
          (snd (setTimeout (CloseCb b) (closeDelay p) ?s1))
            \<lparr>closeTimeout := Some (fst (setTimeout (CloseCb b) (closeDelay p) ?s1))\<rparr>"
        by (auto simp add: closeTooltip_def Let_def split_def)
      with consistent_setTimeout_close[OF c1 n None] show ?thesis by simp
    next
      case (Some h)
      with False truthy_closeTimeout[OF c1] have "closeTooltip p b s = ?s1"
        by (auto simp add: closeTooltip_def Let_def)
      with c1 show ?thesis by simp
    qed
  qed
qed

lemma consistent_openD:
  assumes "consistent s" "t \<in> set (timers s)" "isOpenCb t"
  shows "openTimeout s = Some (handle t)" "closeTimeout s = None"
    "\<forall>u\<in>set (timers s). isOpenCb u \<longrightarrow> handle u = handle t"
    "\<forall>u\<in>set (timers s). \<not> isCloseCb u"
proof -
  show o: "openTimeout s = Some (handle t)" using assms unfolding consistent_def by blast
  then show c: "closeTimeout s = None" using assms(1) unfolding consistent_def by auto
  show "\<forall>u\<in>set (timers s). isOpenCb u \<longrightarrow> handle u = handle t"
    using assms(1) o unfolding consistent_def by fastforce
  show "\<forall>u\<in>set (timers s). \<not> isCloseCb u"
    using assms(1) c unfolding consistent_def by fastforce
qed

lemma consistent_closeD:
  assumes "consistent s" "t \<in> set (timers s)" "isCloseCb t"
  shows "closeTimeout s = Some (handle t)" "openTimeout s = None"
    "\<forall>u\<in>set (timers s). isCloseCb u \<longrightarrow> handle u = handle t"
    "\<forall>u\<in>set (timers s). \<not> isOpenCb u"
proof -
  show o: "closeTimeout s = Some (handle t)" using assms unfolding consistent_def by blast
  then show c: "openTimeout s = None" using assms(1) unfolding consistent_def by auto
  show "\<forall>u\<in>set (timers s). isCloseCb u \<longrightarrow> handle u = handle t"
    using assms(1) o unfolding consistent_def by fastforce
  show "\<forall>u\<in>set (timers s). \<not> isOpenCb u"
    using assms(1) c unfolding consistent_def by fastforce
qed

lemma consistent_basicD:
  assumes "consistent s"
  shows "\<forall>t\<in>set (timers s). 0 < handle t \<and> handle t \<le> lastHandle s"
    "distinct (map handle (timers s))"
  using assms unfolding consistent_def by auto

lemma consistent_same_handle:
  assumes "consistent s" "t \<in> set (timers s)" "u \<in> set (timers s)" "handle u = handle t"
  shows "u = t"
proof -
  have "inj_on handle (set (timers s))"
    using consistent_basicD(2)[OF assms(1)] by (simp add: distinct_map)
  with assms(2-4) show ?thesis by (auto dest: inj_onD)
qed

lemma consistent_remove_other:
  assumes c: "consistent s" and t: "t \<in> set (timers s)"
    and o: "\<not> isOpenCb t" "\<not> isCloseCb t"
  shows "consistent (s\<lparr>timers := filter (\<lambda>u. handle u \<noteq> handle t) (timers s)\<rparr>)"
proof -
  let ?ts = "filter (\<lambda>u. handle u \<noteq> handle t) (timers s)"
  have keep: "u \<in> set ?ts" if "u \<in> set (timers s)" "isOpenCb u \<or> isCloseCb u" for u
  proof -
    have "u \<noteq> t" using that(2) o by auto
    with consistent_same_handle[OF c t that(1)] have "handle u \<noteq> handle t" by auto
    with that(1) show ?thesis by simp
  qed
  have 1: "\<forall>u\<in>set ?ts. 0 < handle u \<and> handle u \<le> lastHandle s
          \<and> (isOpenCb u \<longrightarrow> openTimeout s = Some (handle u))
          \<and> (isCloseCb u \<longrightarrow> closeTimeout s = Some (handle u))"
    using c unfolding consistent_def by simp
  have 2: "\<forall>h. openTimeout s = Some h \<longrightarrow> (\<exists>u\<in>set ?ts. handle u = h \<and> isOpenCb u)"
  proof (intro allI impI)
    fix h assume "openTimeout s = Some h"
    with c obtain u where "u \<in> set (timers s)" "handle u = h" "isOpenCb u"
      unfolding consistent_def by blast
    with keep[of u] show "\<exists>u\<in>set ?ts. handle u = h \<and> isOpenCb u" by blast
  qed
  have 3: "\<forall>h. closeTimeout s = Some h \<longrightarrow> (\<exists>u\<in>set ?ts. handle u = h \<and> isCloseCb u)"
  proof (intro allI impI)
    fix h assume "closeTimeout s = Some h"
    with c obtain u where "u \<in> set (timers s)" "handle u = h" "isCloseCb u"
      unfolding consistent_def by blast
    with keep[of u] show "\<exists>u\<in>set ?ts. handle u = h \<and> isCloseCb u" by blast
  qed
  have 4: "distinct (map handle ?ts)"
    using consistent_basicD(2)[OF c] by (simp add: distinct_map_filter)
  have 5: "openTimeout s = None \<or> closeTimeout s = None"
    using c unfolding consistent_def by simp
  show ?thesis
    unfolding consistent_def using 1 2 3 4 5 by simp
qed

lemma find_SomeD: "find P xs = Some x \<Longrightarrow> x \<in> set xs \<and> P x"
  by (induction xs) (auto split: if_splits)

lemma consistent_timerFires:
  assumes "consistent s"
  shows "consistent (timerFires h fw s)"
proof (cases "find (\<lambda>t. handle t = h) (timers s)")
  case None
  then show ?thesis using assms by (simp add: timerFires_def)
next
  case (Some t)
  then have t: "t \<in> set (timers s)" "handle t = h" by (auto dest: find_SomeD)
  let ?s1 = "s\<lparr>timers := filter (\<lambda>t. handle t \<noteq> h) (timers s)\<rparr>"
  show ?thesis
  proof (cases "callback t")
    case (OpenCb r)
    then have o: "isOpenCb t" by (simp add: isOpenCb_iff)
    have "consistent (openCallback r ?s1)"
      using consistent_openD[OF assms t(1) o] consistent_basicD[OF assms] t(2)
      unfolding consistent_def openCallback_def
      by (auto simp: distinct_map_filter)
    with Some OpenCb show ?thesis by (simp add: timerFires_def)
  next
    case (CloseCb b)
    then have o: "isCloseCb t" by (simp add: isCloseCb_iff)
    have "consistent (closeCallback b ?s1)"
      using consistent_closeD[OF assms t(1) o] consistent_basicD[OF assms] t(2)
      unfolding consistent_def closeCallback_def
      by (auto simp: distinct_map_filter)
    with Some CloseCb show ?thesis by (simp add: timerFires_def)
  next
    case FocusOutCb
    then have o: "\<not> isOpenCb t" "\<not> isCloseCb t"
      by (simp_all add: isOpenCb_iff isCloseCb_iff)
    have "consistent ?s1"
      using consistent_remove_other[OF assms t(1) o] t(2) by simp
    then have "consistent (focusOutContinuation fw ?s1)"
      by (simp add: focusOutContinuation_def)
    with Some FocusOutCb show ?thesis by (simp add: timerFires_def)
  qed
qed

lemma consistent_step:
  assumes "consistent s"
  shows "consistent (step p s e)"
proof (cases e)
  case TriggerPointerDown
  then show ?thesis using assms
    by (simp add: trigger_onpointerdown_def consistent_clearOpenTimeout)
next
  case (TriggerPointerEnter pt)
  then show ?thesis using assms
    by (simp add: trigger_onpointerenter_def Let_def consistent_openTooltip)
next
  case (TriggerPointerLeave pt)
  then show ?thesis using assms
    by (simp add: trigger_onpointerleave_def Let_def consistent_clearOpenTimeout)
next
  case TriggerFocus
  then show ?thesis using assms by (simp add: trigger_onfocus_def consistent_openTooltip)
next
  case TriggerBlur
  then show ?thesis using assms by (simp add: trigger_onblur_def consistent_closeTooltip)
next
  case FocusOut
  then show ?thesis using assms
    by (simp add: sharedProps_onfocusout_def consistent_setTimeout_focusout)
next
  case (ContentPointerEnter pt)
  then show ?thesis using assms by (simp add: content_onpointerenter_def consistent_openTooltip)
next
  case (ContentPointerLeave pt)
  then show ?thesis using assms by (simp add: content_onpointerleave_def)
next
  case ContentPointerDown
  then show ?thesis using assms by (simp add: content_onpointerdown_def consistent_openTooltip)
next
  case (KeyDown key)
  then show ?thesis using assms by (simp add: document_onkeydown_def consistent_clearOpenTimeout)
next
  case (Scroll target triggerEl)
  then show ?thesis using assms by (simp add: handleScroll_def consistent_closeTooltip)
next
  case (MouseMove contentEl triggerEl pt)
  then show ?thesis using assms
    by (simp add: document_onmousemove_def Let_def consistent_closeTooltip split: option.splits)
next
  case (TimerFires h fw)
  then show ?thesis using assms by (simp add: consistent_timerFires)
qed (use assms in simp_all)

lemma reachable_consistent: "reachable s \<Longrightarrow> consistent s"
  by (induction rule: reachable.induct) (simp_all add: consistent_initial consistent_step)

lemma reachable_run: "reachable s \<Longrightarrow> reachable (run p s es)"
  unfolding run_def
  by (induction es arbitrary: s) (simp_all add: reachable_step)

lemma clearOpenTimeout_eq:
  assumes "consistent s"
  shows "clearOpenTimeout s =
     s\<lparr>openTimeout := None, timers := filter (\<lambda>t. \<not> isOpenCb t) (timers s)\<rparr>"
proof (cases "openTimeout s")
  case None
  with assms have "\<forall>t\<in>set (timers s). \<not> isOpenCb t"
    unfolding consistent_def by auto
  then have "filter (\<lambda>t. \<not> isOpenCb t) (timers s) = timers s"
    by (simp add: filter_id_conv)
  with None show ?thesis by (simp add: clearOpenTimeout_def)
next
  case (Some h)
  with assms obtain t where t: "t \<in> set (timers s)" "handle t = h" "isOpenCb t"
    unfolding consistent_def by blast
  have "handle u \<noteq> h \<longleftrightarrow> \<not> isOpenCb u" if "u \<in> set (timers s)" for u
    using consistent_openD(3)[OF assms t(1,3)] consistent_same_handle[OF assms t(1) that] t that
    by auto
  then have "filter (\<lambda>u. handle u \<noteq> h) (timers s) = filter (\<lambda>t. \<not> isOpenCb t) (timers s)"
    by (auto intro: filter_cong)
  moreover have "h \<noteq> 0" using consistent_nonzero(1)[OF assms] Some by auto
  ultimately show ?thesis using Some by (simp add: clearOpenTimeout_def clearTimeout_def)
qed

lemma clearCloseTimeout_eq:
  assumes "consistent s"
  shows "clearCloseTimeout s =
     s\<lparr>closeTimeout := None, timers := filter (\<lambda>t. \<not> isCloseCb t) (timers s)\<rparr>"
proof (cases "closeTimeout s")
  case None
  with assms have "\<forall>t\<in>set (timers s). \<not> isCloseCb t"
    unfolding consistent_def by auto
  then have "filter (\<lambda>t. \<not> isCloseCb t) (timers s) = timers s"
    by (simp add: filter_id_conv)
  with None show ?thesis by (simp add: clearCloseTimeout_def)
next
  case (Some h)
  with assms obtain t where t: "t \<in> set (timers s)" "handle t = h" "isCloseCb t"
    unfolding consistent_def by blast
  have "handle u \<noteq> h \<longleftrightarrow> \<not> isCloseCb u" if "u \<in> set (timers s)" for u
    using consistent_closeD(3)[OF assms t(1,3)] consistent_same_handle[OF assms t(1) that] t that
    by auto
  then have "filter (\<lambda>u. handle u \<noteq> h) (timers s) = filter (\<lambda>t. \<not> isCloseCb t) (timers s)"
    by (auto intro: filter_cong)
  moreover have "h \<noteq> 0" using consistent_nonzero(2)[OF assms] Some by auto
  ultimately show ?thesis using Some by (simp add: clearCloseTimeout_def clearTimeout_def)
qed

section \<open>Concrete runs\<close>

lemmas handler_defs =
  run_def initial_def defaultProps_def setTimeout_def clearTimeout_def
  clearOpenTimeout_def clearCloseTimeout_def openTooltip_def closeTooltip_def
  openCallback_def closeCallback_def focusOutContinuation_def
  document_onmousemove_def sharedProps_onfocusout_def trigger_onpointerdown_def
  trigger_onpointerenter_def trigger_onpointerleave_def trigger_onfocus_def
  trigger_onblur_def content_onpointerenter_def content_onpointerleave_def
  content_onpointerdown_def document_onkeydown_def handleScroll_def timerFires_def

lemma exFocusOpen_eq:
  "exFocusOpen = \<lparr>open = True, openReason = Some Focus, clickedTrigger = False,
     isPointerInsideTrigger = False, isPointerInsideContent = False,
     isMouseInTooltipArea = False, openTimeout = None, closeTimeout = None,
     timers = [], lastHandle = 1\<rparr>"
  by (simp add: exFocusOpen_def handler_defs)

lemma exClosing_eq:
  "exClosing = \<lparr>open = True, openReason = Some Focus, clickedTrigger = False,
     isPointerInsideTrigger = False, isPointerInsideContent = False,
     isMouseInTooltipArea = False, openTimeout = None, closeTimeout = Some 2,
     timers = [Timer 2 0 (CloseCb False)], lastHandle = 2\<rparr>"
  by (simp add: exClosing_def exFocusOpen_eq handler_defs)

lemma reachable_exFocusOpen: "reachable exFocusOpen"
  by (simp add: exFocusOpen_def reachable_run reachable_initial)

lemma reachable_exClosing: "reachable exClosing"
  unfolding exClosing_def by (rule reachable_step[OF reachable_exFocusOpen])

section \<open>Closing\<close>

text \<open>
  C1. Once the tooltip is closed, with no close pending, \<open>openReason\<close> is \<open>null\<close>:
  every path that sets \<open>open\<close> to \<open>false\<close> leaves it so. The close callback does
  (\<open>closeCallback\<close> resets the reason). The other three paths do not touch the field:
  from the tooltip opened by focus, Escape, a pointerdown on the trigger and a focusout
  whose continuation finds the focus gone each end in a state that is closed, has no
  timeout pending, and still has \<open>openReason = focus\<close>.
\<close>

theorem forced_close_keeps_openReason:
  "open exFocusOpen \<and> openReason exFocusOpen = Some Focus
   \<and> step defaultProps exFocusOpen (KeyDown ''Escape'') = exFocusOpen\<lparr>open := False\<rparr>
   \<and> step defaultProps exFocusOpen TriggerPointerDown
       = exFocusOpen\<lparr>open := False, clickedTrigger := True\<rparr>
   \<and> run defaultProps exFocusOpen [FocusOut, TimerFires 2 False]
       = exFocusOpen\<lparr>open := False, lastHandle := 2\<rparr>
   \<and> openReason (exFocusOpen\<lparr>open := False\<rparr>) = Some Focus
   \<and> timers (exFocusOpen\<lparr>open := False\<rparr>) = []"
  by (simp add: exFocusOpen_eq handler_defs)

text \<open>
  C2, as the code has it. In every reachable state, whatever the props, Escape sets
  \<open>open\<close> to \<open>false\<close> in the handler itself, without a timeout, and cancels the pending
  open timeout: the state afterwards is the state before with \<open>open\<close> false,
  \<open>#openTimeout\<close> null and the open callback gone from the window. Nothing else
  changes, so a pending close timeout stays pending.
\<close>

theorem escape_closes_at_once:
  assumes "reachable s"
  shows "step p s (KeyDown ''Escape'') =
     s\<lparr>open := False, openTimeout := None,
       timers := filter (\<lambda>t. \<not> isOpenCb t) (timers s)\<rparr>"
  using clearOpenTimeout_eq[OF reachable_consistent[OF assms]]
  by (simp add: document_onkeydown_def)

theorem escape_closes_at_once_witness:
  "reachable exClosing
   \<and> step defaultProps exClosing (KeyDown ''Escape'')
       = exClosing\<lparr>open := False, openTimeout := None, timers := [Timer 2 0 (CloseCb False)]\<rparr>"
  using escape_closes_at_once[OF reachable_exClosing, of defaultProps] reachable_exClosing
  by (simp add: exClosing_eq)

text \<open>
  C2, as stated, says that Escape cancels the pending close timeout too. It does not:
  with a close pending after a scroll, Escape leaves \<open>#closeTimeout\<close> and the callback
  in the window as they were.
\<close>

theorem escape_keeps_close_timer_counterexample:
  "open exClosing
   \<and> closeTimeout (step defaultProps exClosing (KeyDown ''Escape'')) = Some 2
   \<and> timers (step defaultProps exClosing (KeyDown ''Escape'')) = [Timer 2 0 (CloseCb False)]"
  by (simp add: exClosing_eq handler_defs)

section \<open>What \<open>#openTooltip\<close>, \<open>#closeTooltip\<close> and \<open>#handleScroll\<close> come to\<close>

lemma no_close_timers:
  assumes "consistent s" "closeTimeout s = None"
  shows "filter (\<lambda>t. \<not> isCloseCb t) (timers s) = timers s"
proof -
  from assms have "\<forall>t\<in>set (timers s). \<not> isCloseCb t"
    unfolding consistent_def by auto
  then show ?thesis by (simp add: filter_id_conv)
qed

lemma no_open_timers:
  assumes "consistent s" "openTimeout s = None"
  shows "filter (\<lambda>t. \<not> isOpenCb t) (timers s) = timers s"
proof -
  from assms have "\<forall>t\<in>set (timers s). \<not> isOpenCb t"
    unfolding consistent_def by auto
  then show ?thesis by (simp add: filter_id_conv)
qed

lemma consistent_not_both:
  "consistent s \<Longrightarrow> openTimeout s = Some h \<Longrightarrow> closeTimeout s = None"
  "consistent s \<Longrightarrow> closeTimeout s = Some h \<Longrightarrow> openTimeout s = None"
  unfolding consistent_def by auto

lemma openTooltip_eq:
  assumes "consistent s"
  shows "openTooltip p r s =
     (if openTimeout s \<noteq> None then s
      else s\<lparr>closeTimeout := None, openTimeout := Some (Suc (lastHandle s)),
             timers := filter (\<lambda>t. \<not> isCloseCb t) (timers s)
                       @ [Timer (Suc (lastHandle s)) (openDelay p) (OpenCb r)],
             lastHandle := Suc (lastHandle s)\<rparr>)"
proof (cases "openTimeout s")
  case None
  then show ?thesis
    by (simp add: openTooltip_def clearCloseTimeout_eq[OF assms] setTimeout_def Let_def)
next
  case (Some h)
  then have c: "closeTimeout s = None" by (rule consistent_not_both(1)[OF assms])
  have "h \<noteq> 0" using consistent_nonzero(1)[OF assms] Some by auto
  with Some c show ?thesis
    by (simp add: openTooltip_def clearCloseTimeout_def Let_def)
qed

lemma closeTooltip_eq:
  assumes "consistent s"
  shows "closeTooltip p b s =
     (if b \<and> isMouseInTooltipArea s
      then s\<lparr>openReason := Some Pointer, openTimeout := None,
             timers := filter (\<lambda>t. \<not> isOpenCb t) (timers s)\<rparr>
      else if closeTimeout s \<noteq> None then s
      else s\<lparr>openTimeout := None, closeTimeout := Some (Suc (lastHandle s)),
             timers := filter (\<lambda>t. \<not> isOpenCb t) (timers s)
                       @ [Timer (Suc (lastHandle s)) (closeDelay p) (CloseCb b)],
             lastHandle := Suc (lastHandle s)\<rparr>)"
proof (cases "closeTimeout s")
  case None
  then show ?thesis
    by (simp add: closeTooltip_def clearOpenTimeout_eq[OF assms] setTimeout_def Let_def)
next
  case (Some h)
  then have c: "openTimeout s = None" by (rule consistent_not_both(2)[OF assms])
  have "h \<noteq> 0" using consistent_nonzero(2)[OF assms] Some by auto
  with Some c show ?thesis
    by (simp add: closeTooltip_def clearOpenTimeout_def Let_def no_open_timers[OF assms c])
qed

lemma handleScroll_eq:
  "handleScroll p target triggerEl s =
     (if open s \<and> target \<noteq> OtherTarget then closeTooltip p False s else s)"
  by (cases target) (simp_all add: handleScroll_def)

lemma distinct_all_equal:
  assumes "distinct xs" "\<forall>x\<in>set xs. x = h"
  shows "length xs \<le> 1"
proof (cases xs)
  case Nil
  then show ?thesis by simp
next
  case (Cons x ys)
  with assms show ?thesis by (cases ys) auto
qed

lemma consistent_at_most_one:
  assumes "consistent s"
  shows "length (filter (\<lambda>t. isOpenCb t \<or> isCloseCb t) (timers s)) \<le> 1"
proof -
  let ?ts = "filter (\<lambda>t. isOpenCb t \<or> isCloseCb t) (timers s)"
  have d: "distinct (map handle ?ts)"
    using consistent_basicD(2)[OF assms] by (simp add: distinct_map_filter)
  have "\<exists>h. \<forall>x\<in>set (map handle ?ts). x = h"
  proof (cases "openTimeout s")
    case None
    with assms have "\<forall>t\<in>set ?ts. handle t = (case closeTimeout s of None \<Rightarrow> 0 | Some h \<Rightarrow> h)"
      unfolding consistent_def by (auto split: option.splits)
    then show ?thesis by auto
  next
    case (Some h)
    with assms have "\<forall>t\<in>set ?ts. handle t = h"
      unfolding consistent_def by auto
    then show ?thesis by auto
  qed
  then obtain h where "\<forall>x\<in>set (map handle ?ts). x = h" ..
  from distinct_all_equal[OF d this] show ?thesis by simp
qed

lemma exFocusHover_eq:
  "exFocusHover = \<lparr>open = True, openReason = Some Focus, clickedTrigger = False,
     isPointerInsideTrigger = True, isPointerInsideContent = False,
     isMouseInTooltipArea = True, openTimeout = Some 2, closeTimeout = None,
     timers = [Timer 2 1000 (OpenCb Pointer)], lastHandle = 2\<rparr>"
  by (simp add: exFocusHover_def exFocusOpen_eq handler_defs)

lemma reachable_exFocusHover: "reachable exFocusHover"
  unfolding exFocusHover_def by (rule reachable_run[OF reachable_exFocusOpen])

section \<open>Touch\<close>

text \<open>
  On the trigger a touch pointer only moves the flag: no timeout is set or cleared.
  \<open>pointerleave\<close> on the content never touches a timeout either.
\<close>

lemma trigger_touch_only_flag:
  "step p s (TriggerPointerEnter ''touch'') = s\<lparr>isPointerInsideTrigger := True\<rparr>"
  "step p s (TriggerPointerLeave ''touch'') = s\<lparr>isPointerInsideTrigger := False\<rparr>"
  "step p s (ContentPointerLeave pt) = s\<lparr>isPointerInsideContent := False\<rparr>"
  by (simp_all add: trigger_onpointerenter_def trigger_onpointerleave_def
      content_onpointerleave_def)

text \<open>
  C3. No \<open>pointerenter\<close> or \<open>pointerleave\<close> with pointer type touch, on the trigger or on
  the content, starts an open timeout or cancels a pending one. The trigger's handlers
  filter touch; \<open>pointerenter\<close> on the content does not look at the event. On the
  tooltip opened by focus, a touch entering the content starts an open timeout (handle
  2, \<open>openDelay\<close> 1000, reason pointer); with a close pending it cancels the close as
  well.
\<close>

theorem content_pointerenter_touch_starts_open_timer:
  "openTimeout exFocusOpen = None \<and> timers exFocusOpen = []
   \<and> step defaultProps exFocusOpen (ContentPointerEnter ''touch'')
       = exFocusOpen\<lparr>isPointerInsideContent := True, openTimeout := Some 2,
           timers := [Timer 2 1000 (OpenCb Pointer)], lastHandle := 2\<rparr>
   \<and> closeTimeout exClosing = Some 2
   \<and> step defaultProps exClosing (ContentPointerEnter ''touch'')
       = exClosing\<lparr>isPointerInsideContent := True, openTimeout := Some 3,
           closeTimeout := None, timers := [Timer 3 1000 (OpenCb Pointer)],
           lastHandle := 3\<rparr>"
  by (simp add: exFocusOpen_eq exClosing_eq handler_defs)

section \<open>Scroll\<close>

text \<open>
  C4. While open, a scroll schedules the deferred close exactly when its target
  contains the trigger, and a scroll elsewhere changes nothing. The condition of
  \<open>#handleScroll\<close> is \<open>(triggerEl && target.contains(triggerEl)) || this.open\<close>, and
  \<open>open\<close> holds at that point, so the containment test decides nothing
  (\<open>handleScroll_eq\<close>): on the tooltip opened by focus, a scroll of an element that does
  not contain the trigger, and one with the trigger missing from the document, both
  schedule the close.
\<close>

theorem scroll_elsewhere_schedules_close:
  "open exFocusOpen \<and> closeTimeout exFocusOpen = None \<and> timers exFocusOpen = []
   \<and> step defaultProps exFocusOpen (Scroll ElementTarget (Some False))
       = exFocusOpen\<lparr>closeTimeout := Some 2, timers := [Timer 2 0 (CloseCb False)],
           lastHandle := 2\<rparr>
   \<and> step defaultProps exFocusOpen (Scroll ElementTarget None)
       = exFocusOpen\<lparr>closeTimeout := Some 2, timers := [Timer 2 0 (CloseCb False)],
           lastHandle := 2\<rparr>"
  by (simp add: exFocusOpen_eq handler_defs)

section \<open>One timer at a time\<close>

text \<open>
  C5. In every reachable state at most one of \<open>#openTimeout\<close> and \<open>#closeTimeout\<close> is
  set, and the window holds at most one open or close callback in all. Scheduling an
  open cancels the pending close, and does nothing at all when an open is already
  pending; scheduling a close cancels the pending open, and with a close already
  pending it creates no second one (a blur with the pointer in the tooltip area still
  sets the reason, as it always does). So a second scroll after a first changes nothing,
  and one close callback is pending after them.
\<close>

theorem one_timer_at_a_time:
  assumes "reachable s"
  shows "(openTimeout s = None \<or> closeTimeout s = None)
    \<and> length (filter (\<lambda>t. isOpenCb t \<or> isCloseCb t) (timers s)) \<le> 1
    \<and> closeTimeout (openTooltip p r s) = None
    \<and> (\<forall>t\<in>set (timers (openTooltip p r s)). \<not> isCloseCb t)
    \<and> (openTimeout s \<noteq> None \<longrightarrow> openTooltip p r s = s)
    \<and> openTimeout (closeTooltip p b s) = None
    \<and> (\<forall>t\<in>set (timers (closeTooltip p b s)). \<not> isOpenCb t)
    \<and> (closeTimeout s \<noteq> None \<longrightarrow>
         closeTooltip p b s
           = (if b \<and> isMouseInTooltipArea s then s\<lparr>openReason := Some Pointer\<rparr> else s))
    \<and> (open s \<and> ta \<noteq> OtherTarget \<longrightarrow>
         handleScroll pb tb cb (handleScroll pa ta ca s) = handleScroll pa ta ca s
         \<and> length (filter isCloseCb (timers (handleScroll pa ta ca s))) = 1)"
proof -
  have c: "consistent s" by (rule reachable_consistent[OF assms])
  have co: "consistent (openTooltip p r s)" by (rule consistent_openTooltip[OF c])
  have cc: "consistent (closeTooltip p b s)" by (rule consistent_closeTooltip[OF c])
  have 1: "openTimeout s = None \<or> closeTimeout s = None"
    using c unfolding consistent_def by simp
  have 2: "length (filter (\<lambda>t. isOpenCb t \<or> isCloseCb t) (timers s)) \<le> 1"
    by (rule consistent_at_most_one[OF c])
  have 3: "closeTimeout (openTooltip p r s) = None"
    using 1 by (auto simp: openTooltip_eq[OF c])
  have 4: "\<forall>t\<in>set (timers (openTooltip p r s)). \<not> isCloseCb t"
    using co 3 unfolding consistent_def by auto
  have 5: "openTimeout s \<noteq> None \<longrightarrow> openTooltip p r s = s"
    by (simp add: openTooltip_eq[OF c])
  have 6: "openTimeout (closeTooltip p b s) = None"
    using 1 by (auto simp: closeTooltip_eq[OF c])
  have 7: "\<forall>t\<in>set (timers (closeTooltip p b s)). \<not> isOpenCb t"
    using cc 6 unfolding consistent_def by auto
  have 8: "closeTimeout s \<noteq> None \<longrightarrow>
         closeTooltip p b s
           = (if b \<and> isMouseInTooltipArea s then s\<lparr>openReason := Some Pointer\<rparr> else s)"
  proof
    assume n: "closeTimeout s \<noteq> None"
    with 1 have o: "openTimeout s = None" by auto
    show "closeTooltip p b s
           = (if b \<and> isMouseInTooltipArea s then s\<lparr>openReason := Some Pointer\<rparr> else s)"
      using n o by (simp add: closeTooltip_eq[OF c] no_open_timers[OF c o])
  qed
  have 9: "open s \<and> ta \<noteq> OtherTarget \<longrightarrow>
         handleScroll pb tb cb (handleScroll pa ta ca s) = handleScroll pa ta ca s
         \<and> length (filter isCloseCb (timers (handleScroll pa ta ca s))) = 1"
  proof
    assume a: "open s \<and> ta \<noteq> OtherTarget"
    let ?s1 = "closeTooltip pa False s"
    have h1: "handleScroll pa ta ca s = ?s1" using a by (simp add: handleScroll_eq)
    have cs: "consistent ?s1" by (rule consistent_closeTooltip[OF c])
    have n: "closeTimeout ?s1 \<noteq> None" by (auto simp: closeTooltip_eq[OF c])
    have o: "open ?s1" using a by (auto simp: closeTooltip_eq[OF c])
    have "closeTooltip pb False ?s1 = ?s1"
      using n by (simp add: closeTooltip_eq[OF cs])
    then have i: "handleScroll pb tb cb ?s1 = ?s1" by (simp add: handleScroll_eq)
    from n obtain h where h: "closeTimeout ?s1 = Some h" by auto
    with cs obtain t where t: "t \<in> set (timers ?s1)" "isCloseCb t"
      unfolding consistent_def by blast
    then have "filter isCloseCb (timers ?s1) \<noteq> []" by (auto simp: filter_empty_conv)
    moreover have "length (filter isCloseCb (timers ?s1)) \<le> 1"
    proof -
      have "filter isCloseCb (timers ?s1) = filter (\<lambda>t. isOpenCb t \<or> isCloseCb t) (timers ?s1)"
        using consistent_closeD(4)[OF cs t] by (auto intro: filter_cong)
      with consistent_at_most_one[OF cs] show ?thesis by simp
    qed
    ultimately have "length (filter isCloseCb (timers ?s1)) = 1"
      by (cases "filter isCloseCb (timers ?s1)") auto
    with i h1 show "handleScroll pb tb cb (handleScroll pa ta ca s) = handleScroll pa ta ca s
         \<and> length (filter isCloseCb (timers (handleScroll pa ta ca s))) = 1" by simp
  qed
  from 1 2 3 4 5 6 7 8 9 show ?thesis by blast
qed

theorem one_timer_at_a_time_witness:
  "reachable exClosing \<and> closeTimeout exClosing \<noteq> None
   \<and> closeTooltip defaultProps False exClosing = exClosing
   \<and> reachable exFocusHover \<and> openTimeout exFocusHover \<noteq> None
   \<and> openTooltip defaultProps Focus exFocusHover = exFocusHover
   \<and> reachable exFocusOpen \<and> open exFocusOpen
   \<and> handleScroll defaultProps ElementTarget (Some True)
        (handleScroll defaultProps DocumentTarget (Some True) exFocusOpen)
       = handleScroll defaultProps DocumentTarget (Some True) exFocusOpen
   \<and> length (filter isCloseCb
        (timers (handleScroll defaultProps DocumentTarget (Some True) exFocusOpen))) = 1"
  using one_timer_at_a_time[OF reachable_exClosing, where p = defaultProps and b = False]
    one_timer_at_a_time[OF reachable_exFocusHover, where p = defaultProps and r = Focus]
    one_timer_at_a_time[OF reachable_exFocusOpen, where pa = defaultProps
      and ta = DocumentTarget and ca = "Some True" and pb = defaultProps
      and tb = ElementTarget and cb = "Some True"]
    reachable_exClosing reachable_exFocusHover reachable_exFocusOpen
  by (simp add: exClosing_eq exFocusHover_eq exFocusOpen_eq)

section \<open>Fields the two schedulers leave alone\<close>

lemma openTooltip_fields [simp]:
  "open (openTooltip p r s) = open s"
  "openReason (openTooltip p r s) = openReason s"
  "clickedTrigger (openTooltip p r s) = clickedTrigger s"
  "isPointerInsideTrigger (openTooltip p r s) = isPointerInsideTrigger s"
  "isPointerInsideContent (openTooltip p r s) = isPointerInsideContent s"
  "isMouseInTooltipArea (openTooltip p r s) = isMouseInTooltipArea s"
  by (simp_all add: openTooltip_def setTimeout_def Let_def)

lemma closeTooltip_fields [simp]:
  "open (closeTooltip p b s) = open s"
  "openReason (closeTooltip p b s)
     = (if b \<and> isMouseInTooltipArea s then Some Pointer else openReason s)"
  "clickedTrigger (closeTooltip p b s) = clickedTrigger s"
  "isPointerInsideTrigger (closeTooltip p b s) = isPointerInsideTrigger s"
  "isPointerInsideContent (closeTooltip p b s) = isPointerInsideContent s"
  "isMouseInTooltipArea (closeTooltip p b s) = isMouseInTooltipArea s"
  by (simp_all add: closeTooltip_def setTimeout_def Let_def)

lemma find_handle:
  assumes "consistent s" "t \<in> set (timers s)"
  shows "find (\<lambda>u. handle u = handle t) (timers s) = Some t"
proof (cases "find (\<lambda>u. handle u = handle t) (timers s)")
  case None
  with assms(2) show ?thesis by (auto simp: find_None_iff)
next
  case (Some u)
  then have "u \<in> set (timers s)" "handle u = handle t" by (auto dest: find_SomeD)
  with consistent_same_handle[OF assms] Some show ?thesis by simp
qed

section \<open>The grace area\<close>

text \<open>
  The test of the model does what the spec asks of the hull: every point of one of the
  rectangles, its border included, lies in the grace area. Seen from such a point, no
  ray has all four corners of the rectangle strictly to its left or ahead on it.
\<close>

lemma not_left_aux:
  fixes a b d :: rat
  assumes "a \<le> 0" "0 \<le> b" and "a = 0 \<Longrightarrow> b = 0 \<Longrightarrow> d \<le> 0"
  shows "\<not> (0 < a - b \<or> (a - b = 0 \<and> 0 < d))"
proof (cases "a = 0 \<and> b = 0")
  case True
  with assms(3) show ?thesis by auto
next
  case False
  with assms(1,2) have "a - b < 0" by auto
  then show ?thesis by auto
qed

lemma some_corner_not_left:
  fixes dx dy ua ub va vb :: rat
  assumes "ua \<le> 0" "0 \<le> ub" "va \<le> 0" "0 \<le> vb"
  shows "\<exists>u\<in>{ua, ub}. \<exists>v\<in>{va, vb}.
     \<not> (0 < dx * v - dy * u \<or> (dx * v - dy * u = 0 \<and> 0 < dx * u + dy * v))"
proof -
  define u where "u = (if 0 < dy \<or> (dy = 0 \<and> dx \<le> 0) then ub else ua)"
  define v where "v = (if 0 < dx \<or> (dx = 0 \<and> 0 < dy) then va else vb)"
  have 1: "dx * v \<le> 0"
    using assms by (auto simp: v_def mult_le_0_iff)
  have 2: "0 \<le> dy * u"
    using assms by (auto simp: u_def zero_le_mult_iff)
  have 3: "dx * u + dy * v \<le> 0" if "dx * v = 0" "dy * u = 0"
  proof -
    have "dx * u \<le> 0"
      using that assms by (auto simp: u_def v_def mult_le_0_iff split: if_splits)
    moreover have "dy * v \<le> 0"
      using that assms by (auto simp: u_def v_def mult_le_0_iff split: if_splits)
    ultimately show ?thesis by simp
  qed
  have "u \<in> {ua, ub}" "v \<in> {va, vb}" by (auto simp: u_def v_def)
  with not_left_aux[OF 1 2 3] show ?thesis by blast
qed


lemma inside_rect_in_grace_area:
  assumes r: "r \<in> set els"
    and x: "rect_left r \<le> fst e" "fst e \<le> rect_right r"
    and y: "rect_top r \<le> snd e" "snd e \<le> rect_bottom r"
  shows "isPointerInGraceArea e (makeHullFromElements els)"
proof -
  let ?poly = "makeHullFromElements els"
  have sub: "set (corners r) \<subseteq> set ?poly"
    using r by (auto simp: makeHullFromElements_def)
  then have ne: "?poly \<noteq> []" by (auto simp: corners_def)
  have "\<exists>b\<in>set ?poly. \<not> leftOfRay e a b" for a
  proof -
    from some_corner_not_left[of "rect_left r - fst e" "rect_right r - fst e"
        "rect_top r - snd e" "rect_bottom r - snd e" "fst a - fst e" "snd a - snd e"]
    obtain u v where u: "u \<in> {rect_left r - fst e, rect_right r - fst e}"
      and v: "v \<in> {rect_top r - snd e, rect_bottom r - snd e}"
      and n: "\<not> (0 < (fst a - fst e) * v - (snd a - snd e) * u
            \<or> ((fst a - fst e) * v - (snd a - snd e) * u = 0
                \<and> 0 < (fst a - fst e) * u + (snd a - snd e) * v))"
      using x y by auto
    let ?b = "(u + fst e, v + snd e)"
    have "?b \<in> set (corners r)" using u v by (auto simp: corners_def)
    moreover have "\<not> leftOfRay e a ?b"
      using n by (simp add: leftOfRay_def cross_def dot_def)
    ultimately show ?thesis using sub by blast
  qed
  then show ?thesis
    using ne by (auto simp: isPointerInGraceArea_def list_ex_iff list_all_iff)
qed

lemma grace_step:
  assumes "isPointerInsideContent s \<or> isPointerInsideTrigger s
      \<or> isPointerInGraceArea e
           (makeHullFromElements (if disableHoverableContent p then [t] else [t, c]))"
  shows "step p s (MouseMove (Some c) (Some t) e)
      = (if open s then s\<lparr>isMouseInTooltipArea := True\<rparr> else s)"
  using assms by (auto simp: document_onmousemove_def Let_def)

lemmas geometry_defs =
  isPointerInGraceArea_def makeHullFromElements_def corners_def leftOfRay_def
  cross_def dot_def exTrigger_def exContent_def

lemma exHoverOpen_eq:
  "exHoverOpen = \<lparr>open = True, openReason = Some Pointer, clickedTrigger = False,
     isPointerInsideTrigger = True, isPointerInsideContent = False,
     isMouseInTooltipArea = False, openTimeout = None, closeTimeout = None,
     timers = [], lastHandle = 1\<rparr>"
  by (simp add: exHoverOpen_def handler_defs)

lemma exHoverLeft_eq:
  "exHoverLeft = \<lparr>open = True, openReason = Some Pointer, clickedTrigger = False,
     isPointerInsideTrigger = False, isPointerInsideContent = False,
     isMouseInTooltipArea = False, openTimeout = None, closeTimeout = None,
     timers = [], lastHandle = 1\<rparr>"
  by (simp add: exHoverLeft_def exHoverOpen_eq handler_defs)

lemma example_path_in_hull:
  "isPointerInGraceArea (25, 10) (makeHullFromElements [exTrigger, exContent])"
  "isPointerInGraceArea (25, 30) (makeHullFromElements [exTrigger, exContent])"
  "isPointerInGraceArea (25, 50) (makeHullFromElements [exTrigger, exContent])"
  "\<not> isPointerInGraceArea (25, 30) (makeHullFromElements [exTrigger])"
  by (simp_all add: geometry_defs)

text \<open>
  C6, as the code has it. While the tooltip is open and both elements are found, a
  \<open>mousemove\<close> sample initiates no close, and changes nothing but the flag
  \<open>#isMouseInTooltipArea\<close>, whenever the pointer is inside the content or the trigger
  (by their flags) or the sample lies in the grace polygon. That polygon is the hull of
  the trigger and the content when \<open>disableHoverableContent\<close> is false, and the hull
  of the trigger alone when it is true. So a path of samples that all qualify keeps the
  tooltip open throughout: after any number of them no timeout has been set.
\<close>

theorem grace_area_keeps_open:
  assumes "\<forall>e\<in>set es. isPointerInsideContent s \<or> isPointerInsideTrigger s
      \<or> isPointerInGraceArea e
           (makeHullFromElements (if disableHoverableContent p then [t] else [t, c]))"
  shows "run p s (map (MouseMove (Some c) (Some t)) es)
      = (if open s \<and> es \<noteq> [] then s\<lparr>isMouseInTooltipArea := True\<rparr> else s)"
  using assms
proof (induction es rule: rev_induct)
  case Nil
  then show ?case by (simp add: run_def)
next
  case (snoc e es)
  let ?s1 = "run p s (map (MouseMove (Some c) (Some t)) es)"
  have ih: "?s1 = (if open s \<and> es \<noteq> [] then s\<lparr>isMouseInTooltipArea := True\<rparr> else s)"
    using snoc by simp
  have g: "isPointerInsideContent ?s1 \<or> isPointerInsideTrigger ?s1
      \<or> isPointerInGraceArea e
           (makeHullFromElements (if disableHoverableContent p then [t] else [t, c]))"
    using snoc.prems by (auto simp: ih)
  have "run p s (map (MouseMove (Some c) (Some t)) (es @ [e]))
      = step p ?s1 (MouseMove (Some c) (Some t) e)"
    by (simp add: run_def)
  also have "\<dots> = (if open ?s1 then ?s1\<lparr>isMouseInTooltipArea := True\<rparr> else ?s1)"
    by (rule grace_step[OF g])
  also have "\<dots> = (if open s \<and> es @ [e] \<noteq> [] then s\<lparr>isMouseInTooltipArea := True\<rparr> else s)"
    by (simp add: ih)
  finally show ?case .
qed

text \<open>
  The path of the spec's example, from inside the trigger through the gap into the
  content, under the default props.
\<close>

theorem grace_area_keeps_open_witness:
  "isPointerInGraceArea (25, 10) (makeHullFromElements [exTrigger, exContent])
   \<and> isPointerInGraceArea (25, 30) (makeHullFromElements [exTrigger, exContent])
   \<and> isPointerInGraceArea (25, 50) (makeHullFromElements [exTrigger, exContent])
   \<and> open exHoverLeft \<and> openReason exHoverLeft = Some Pointer
   \<and> run defaultProps exHoverLeft
        (map (MouseMove (Some exContent) (Some exTrigger)) [(25, 10), (25, 30), (25, 50)])
       = exHoverLeft\<lparr>isMouseInTooltipArea := True\<rparr>"
  using grace_area_keeps_open[where s = exHoverLeft and p = defaultProps
      and t = exTrigger and c = exContent and es = "[(25, 10), (25, 30), (25, 50)]"]
  by (simp add: example_path_in_hull exHoverLeft_eq defaultProps_def)

text \<open>
  C6, as stated, promises this for the hull of trigger and content whatever the props.
  With \<open>disableHoverableContent\<close> set, the sample in the gap, which lies in that hull,
  schedules the close.
\<close>

theorem hull_sample_closes_counterexample:
  "open exHoverLeft \<and> openReason exHoverLeft = Some Pointer
   \<and> closeTimeout exHoverLeft = None
   \<and> isPointerInGraceArea (25, 30) (makeHullFromElements [exTrigger, exContent])
   \<and> closeTimeout (step (defaultProps\<lparr>disableHoverableContent := True\<rparr>) exHoverLeft
        (MouseMove (Some exContent) (Some exTrigger) (25, 30))) = Some 2"
  by (simp add: example_path_in_hull exHoverLeft_eq handler_defs)

section \<open>The open reason\<close>

lemma timerFires_pending:
  assumes "consistent s" "t \<in> set (timers s)"
  shows "timerFires (handle t) fw s =
     (let s1 = s\<lparr>timers := filter (\<lambda>u. handle u \<noteq> handle t) (timers s)\<rparr>
      in case callback t of
           OpenCb reason \<Rightarrow> openCallback reason s1
         | CloseCb isBlur \<Rightarrow> closeCallback isBlur s1
         | FocusOutCb \<Rightarrow> focusOutContinuation fw s1)"
  by (simp add: timerFires_def find_handle[OF assms])

lemma timerFires_fields:
  "open (timerFires h fw s) \<Longrightarrow> openReason s = Some r
     \<Longrightarrow> openReason (timerFires h fw s) = Some r"
  by (auto simp: timerFires_def Let_def openCallback_def closeCallback_def
      focusOutContinuation_def split: option.splits callback.splits if_splits)

lemma exClicked_eq:
  "exClicked = \<lparr>open = False, openReason = Some Focus, clickedTrigger = True,
     isPointerInsideTrigger = False, isPointerInsideContent = False,
     isMouseInTooltipArea = False, openTimeout = None, closeTimeout = None,
     timers = [], lastHandle = 1\<rparr>"
  by (simp add: exClicked_def exFocusOpen_eq handler_defs)

lemma exClickedBlur_eq:
  "exClickedBlur = \<lparr>open = False, openReason = Some Focus, clickedTrigger = True,
     isPointerInsideTrigger = False, isPointerInsideContent = False,
     isMouseInTooltipArea = False, openTimeout = None, closeTimeout = Some 2,
     timers = [Timer 2 0 (CloseCb True)], lastHandle = 2\<rparr>"
  by (simp add: exClickedBlur_def exClicked_eq handler_defs)

lemma reachable_exClicked: "reachable exClicked"
  unfolding exClicked_def by (rule reachable_step[OF reachable_exFocusOpen])

lemma reachable_exClickedBlur: "reachable exClickedBlur"
  unfolding exClickedBlur_def by (rule reachable_step[OF reachable_exClicked])

text \<open>
  C7, as the code has it. If no reason is set and no open is pending when a pointer
  (not a touch) enters the trigger, the open timeout is started; a focus on the trigger
  before it fires changes nothing (no second timeout, no reset); and when it fires the
  tooltip is open with reason pointer. Once set, the reason survives every event after
  which the tooltip is still open, with one exception: a blur on the trigger while the
  pointer is in the tooltip area sets it to pointer.
\<close>

theorem first_reason_sticks:
  assumes "reachable s"
  shows "(openReason s = None \<and> openTimeout s = None \<and> pt \<noteq> ''touch'' \<longrightarrow>
           openTimeout (step p s (TriggerPointerEnter pt)) = Some (Suc (lastHandle s))
           \<and> run p s [TriggerPointerEnter pt, TriggerFocus] = step p s (TriggerPointerEnter pt)
           \<and> open (run p s [TriggerPointerEnter pt, TriggerFocus,
                  TimerFires (Suc (lastHandle s)) fw])
           \<and> openReason (run p s [TriggerPointerEnter pt, TriggerFocus,
                  TimerFires (Suc (lastHandle s)) fw]) = Some Pointer)
    \<and> (openReason s = Some r \<and> open (step p s e) \<longrightarrow>
           openReason (step p s e) = Some r
           \<or> (e = TriggerBlur \<and> isMouseInTooltipArea s
               \<and> openReason (step p s e) = Some Pointer))"
proof -
  have c: "consistent s" by (rule reachable_consistent[OF assms])
  have A: "openTimeout (step p s (TriggerPointerEnter pt)) = Some (Suc (lastHandle s))
           \<and> run p s [TriggerPointerEnter pt, TriggerFocus] = step p s (TriggerPointerEnter pt)
           \<and> open (run p s [TriggerPointerEnter pt, TriggerFocus,
                  TimerFires (Suc (lastHandle s)) fw])
           \<and> openReason (run p s [TriggerPointerEnter pt, TriggerFocus,
                  TimerFires (Suc (lastHandle s)) fw]) = Some Pointer"
    if h: "openReason s = None" "openTimeout s = None" "pt \<noteq> ''touch''"
  proof -
    let ?s0 = "s\<lparr>isPointerInsideTrigger := True\<rparr>"
    let ?t = "Timer (Suc (lastHandle s)) (openDelay p) (OpenCb Pointer)"
    let ?s1 = "trigger_onpointerenter p pt s"
    have c0: "consistent ?s0" using c by simp
    have s1: "?s1 = openTooltip p Pointer ?s0"
      using h(3) by (simp add: trigger_onpointerenter_def Let_def)
    have c1: "consistent ?s1" unfolding s1 by (rule consistent_openTooltip[OF c0])
    have o1: "openTimeout ?s1 = Some (Suc (lastHandle s))"
      using h(2) by (simp add: s1 openTooltip_eq[OF c0])
    have t1: "?t \<in> set (timers ?s1)"
      using h(2) by (simp add: s1 openTooltip_eq[OF c0])
    have r1: "openReason ?s1 = None" using h(1) by (simp add: s1)
    have f: "trigger_onfocus p ?s1 = ?s1"
      using o1 by (auto simp: trigger_onfocus_def openTooltip_eq[OF c1])
    have "timerFires (handle ?t) fw ?s1
        = openCallback Pointer (?s1\<lparr>timers := filter (\<lambda>u. handle u \<noteq> handle ?t) (timers ?s1)\<rparr>)"
      using timerFires_pending[OF c1 t1, of fw] by (simp add: Let_def)
    then have g: "open (timerFires (Suc (lastHandle s)) fw ?s1)
        \<and> openReason (timerFires (Suc (lastHandle s)) fw ?s1) = Some Pointer"
      using r1 by (simp add: openCallback_def)
    show ?thesis
      using o1 f g by (simp add: run_def)
  qed
  have B: "openReason (step p s e) = Some r
           \<or> (e = TriggerBlur \<and> isMouseInTooltipArea s
               \<and> openReason (step p s e) = Some Pointer)"
    if h: "openReason s = Some r" "open (step p s e)"
  proof (cases e)
    case (TimerFires k fw')
    with h timerFires_fields[of k fw' s r] show ?thesis by simp
  next
    case (MouseMove ce te pos)
    with h show ?thesis
      by (auto simp: document_onmousemove_def Let_def split: option.splits if_splits)
  next
    case TriggerBlur
    with h show ?thesis by (auto simp: trigger_onblur_def)
  qed (use h in \<open>auto simp: trigger_onpointerdown_def trigger_onpointerenter_def
        trigger_onpointerleave_def trigger_onfocus_def sharedProps_onfocusout_def
        setTimeout_def content_onpointerenter_def content_onpointerleave_def
        content_onpointerdown_def document_onkeydown_def handleScroll_def Let_def\<close>)
  from A B show ?thesis by blast
qed

theorem first_reason_sticks_witness:
  "reachable (initial False) \<and> openReason (initial False) = None
   \<and> openTimeout (initial False) = None \<and> ''mouse'' \<noteq> ''touch''
   \<and> openReason (run defaultProps (initial False)
        [TriggerPointerEnter ''mouse'', TriggerFocus, TimerFires 1 False]) = Some Pointer
   \<and> reachable exFocusHover \<and> openReason exFocusHover = Some Focus
   \<and> open (step defaultProps exFocusHover (Scroll DocumentTarget (Some True)))
   \<and> openReason (step defaultProps exFocusHover (Scroll DocumentTarget (Some True)))
       = Some Focus"
  using first_reason_sticks[OF reachable_initial[of False], where p = defaultProps
      and pt = "''mouse''" and fw = False]
    first_reason_sticks[OF reachable_exFocusHover, where p = defaultProps
      and r = Focus and e = "Scroll DocumentTarget (Some True)"]
    reachable_initial[of False] reachable_exFocusHover
  by (simp add: initial_def exFocusHover_eq handleScroll_eq)

text \<open>
  C7, as stated, says that the reason is never overwritten while the tooltip remains
  open. The blur does overwrite it: opened by focus, with the pointer over the trigger,
  a blur leaves the tooltip open and turns the reason from focus into pointer.
\<close>

theorem blur_overwrites_reason_counterexample:
  "open exFocusHover \<and> openReason exFocusHover = Some Focus
   \<and> open (step defaultProps exFocusHover TriggerBlur)
   \<and> openReason (step defaultProps exFocusHover TriggerBlur) = Some Pointer"
  by (simp add: exFocusHover_eq handler_defs)

section \<open>Blur\<close>

text \<open>
  C8. A blur on the trigger while the pointer is in the tooltip area
  (\<open>#isMouseInTooltipArea\<close>, the flag the last \<open>mousemove\<close> left) does not close the
  tooltip: \<open>open\<close> keeps its value, no timeout is scheduled (the handler only cancels a
  pending open), \<open>#closeTimeout\<close> is as before, and the reason becomes pointer. With
  the pointer outside the area a close is scheduled instead: a new timeout with
  \<open>closeDelay\<close>, unless a close is pending already, which then stays as it is.
\<close>

theorem blur_in_tooltip_area:
  assumes "reachable s"
  shows "(isMouseInTooltipArea s \<longrightarrow>
            step p s TriggerBlur
              = s\<lparr>openReason := Some Pointer, openTimeout := None,
                  timers := filter (\<lambda>t. \<not> isOpenCb t) (timers s)\<rparr>
            \<and> open (step p s TriggerBlur) = open s
            \<and> closeTimeout (step p s TriggerBlur) = closeTimeout s
            \<and> lastHandle (step p s TriggerBlur) = lastHandle s)
    \<and> (\<not> isMouseInTooltipArea s \<and> closeTimeout s = None \<longrightarrow>
            step p s TriggerBlur
              = s\<lparr>openTimeout := None, closeTimeout := Some (Suc (lastHandle s)),
                  timers := filter (\<lambda>t. \<not> isOpenCb t) (timers s)
                            @ [Timer (Suc (lastHandle s)) (closeDelay p) (CloseCb True)],
                  lastHandle := Suc (lastHandle s)\<rparr>)
    \<and> (\<not> isMouseInTooltipArea s \<and> closeTimeout s \<noteq> None \<longrightarrow> step p s TriggerBlur = s)"
  using closeTooltip_eq[OF reachable_consistent[OF assms], of p True]
  by (simp add: trigger_onblur_def)

theorem blur_in_tooltip_area_witness:
  "reachable exFocusHover \<and> open exFocusHover \<and> isMouseInTooltipArea exFocusHover
   \<and> open (step defaultProps exFocusHover TriggerBlur)
   \<and> openReason (step defaultProps exFocusHover TriggerBlur) = Some Pointer
   \<and> closeTimeout (step defaultProps exFocusHover TriggerBlur) = None
   \<and> timers (step defaultProps exFocusHover TriggerBlur) = []
   \<and> reachable exFocusOpen \<and> \<not> isMouseInTooltipArea exFocusOpen
   \<and> closeTimeout exFocusOpen = None
   \<and> step defaultProps exFocusOpen TriggerBlur
       = exFocusOpen\<lparr>closeTimeout := Some 2, timers := [Timer 2 0 (CloseCb True)],
           lastHandle := 2\<rparr>
   \<and> reachable exClosing \<and> \<not> isMouseInTooltipArea exClosing
   \<and> closeTimeout exClosing \<noteq> None
   \<and> step defaultProps exClosing TriggerBlur = exClosing"
  using blur_in_tooltip_area[OF reachable_exFocusHover, of defaultProps]
    blur_in_tooltip_area[OF reachable_exFocusOpen, of defaultProps]
    blur_in_tooltip_area[OF reachable_exClosing, of defaultProps]
    reachable_exFocusHover reachable_exFocusOpen reachable_exClosing
  by (simp add: exFocusHover_eq exFocusOpen_eq exClosing_eq defaultProps_def)

section \<open>Pointer down on the trigger\<close>

text \<open>
  C9. With \<open>closeOnPointerDown\<close>, a pointerdown on the trigger sets \<open>open\<close> to false in
  the handler itself (no timeout is created), cancels the pending open timeout and sets
  \<open>#clickedTrigger\<close>; a focus on the trigger that follows changes nothing, so it
  schedules no open.
\<close>

theorem pointerdown_closes_and_blocks_focus:
  assumes "reachable s" "closeOnPointerDown p"
  shows "step p s TriggerPointerDown
           = s\<lparr>open := False, clickedTrigger := True, openTimeout := None,
               timers := filter (\<lambda>t. \<not> isOpenCb t) (timers s)\<rparr>
    \<and> step pa (step p s TriggerPointerDown) TriggerFocus = step p s TriggerPointerDown"
proof -
  have "consistent (s\<lparr>open := False, clickedTrigger := True\<rparr>)"
    using reachable_consistent[OF assms(1)] by simp
  from clearOpenTimeout_eq[OF this] assms(2) show ?thesis
    by (simp add: trigger_onpointerdown_def trigger_onfocus_def)
qed

theorem pointerdown_closes_and_blocks_focus_witness:
  "reachable exFocusHover \<and> closeOnPointerDown defaultProps
   \<and> open exFocusHover \<and> openTimeout exFocusHover = Some 2
   \<and> step defaultProps exFocusHover TriggerPointerDown
       = exFocusHover\<lparr>open := False, clickedTrigger := True, openTimeout := None,
           timers := []\<rparr>
   \<and> step defaultProps (step defaultProps exFocusHover TriggerPointerDown) TriggerFocus
       = step defaultProps exFocusHover TriggerPointerDown"
  using pointerdown_closes_and_blocks_focus[OF reachable_exFocusHover, of defaultProps defaultProps]
    reachable_exFocusHover
  by (simp add: exFocusHover_eq defaultProps_def trigger_onfocus_def)

section \<open>\<open>#clickedTrigger\<close>\<close>

lemma openTooltip_timers:
  "t \<in> set (timers (openTooltip p r s)) \<Longrightarrow> t \<in> set (timers s) \<or> isOpenCb t"
  by (auto simp: openTooltip_def clearCloseTimeout_def clearTimeout_def setTimeout_def
      Let_def split: option.splits if_splits)

lemma closeTooltip_timers:
  "t \<in> set (timers (closeTooltip p b s))
     \<Longrightarrow> t \<in> set (timers s) \<or> callback t = CloseCb b"
  by (auto simp: closeTooltip_def clearOpenTimeout_def clearTimeout_def setTimeout_def
      Let_def split: option.splits if_splits)

lemma clearOpenTimeout_timers:
  "t \<in> set (timers (clearOpenTimeout s)) \<Longrightarrow> t \<in> set (timers s)"
  by (auto simp: clearOpenTimeout_def clearTimeout_def split: option.splits if_splits)

lemma timerFires_timers:
  "t \<in> set (timers (timerFires h fw s)) \<Longrightarrow> t \<in> set (timers s)"
  by (auto simp: timerFires_def Let_def openCallback_def closeCallback_def
      focusOutContinuation_def split: option.splits callback.splits if_splits)

lemma blur_close_only_from_blur:
  assumes "e \<noteq> TriggerBlur" "t \<in> set (timers (step p s e))" "callback t = CloseCb True"
  shows "t \<in> set (timers s)"
proof (cases e)
  case TriggerPointerDown
  with assms show ?thesis
    by (auto simp: trigger_onpointerdown_def dest: clearOpenTimeout_timers split: if_splits)
next
  case (TriggerPointerEnter pt)
  with assms show ?thesis
    by (auto simp: trigger_onpointerenter_def Let_def isOpenCb_iff
        dest!: openTooltip_timers split: if_splits)
next
  case (TriggerPointerLeave pt)
  with assms show ?thesis
    by (auto simp: trigger_onpointerleave_def Let_def dest: clearOpenTimeout_timers
        split: if_splits)
next
  case TriggerFocus
  with assms show ?thesis
    by (auto simp: trigger_onfocus_def isOpenCb_iff dest!: openTooltip_timers split: if_splits)
next
  case TriggerBlur
  with assms show ?thesis by simp
next
  case FocusOut
  with assms show ?thesis by (auto simp: sharedProps_onfocusout_def setTimeout_def Let_def)
next
  case (ContentPointerEnter pt)
  with assms show ?thesis
    by (auto simp: content_onpointerenter_def isOpenCb_iff dest!: openTooltip_timers)
next
  case (ContentPointerLeave pt)
  with assms show ?thesis by (simp add: content_onpointerleave_def)
next
  case ContentPointerDown
  with assms show ?thesis
    by (auto simp: content_onpointerdown_def isOpenCb_iff dest!: openTooltip_timers)
next
  case (KeyDown key)
  with assms show ?thesis
    by (auto simp: document_onkeydown_def dest: clearOpenTimeout_timers split: if_splits)
next
  case (Scroll target triggerEl)
  with assms show ?thesis
    by (auto simp: handleScroll_eq dest!: closeTooltip_timers split: if_splits)
next
  case (MouseMove ce te pos)
  with assms show ?thesis
    by (auto simp: document_onmousemove_def Let_def dest!: closeTooltip_timers
        split: option.splits if_splits)
next
  case (TimerFires h fw)
  with assms show ?thesis by (auto dest: timerFires_timers)
next
  case (SetOpen v)
  with assms show ?thesis by simp
next
  case TriggerCleanup
  with assms show ?thesis by simp
next
  case ContentCleanup
  with assms show ?thesis by simp
qed

lemma timerFires_clickedTrigger:
  "clickedTrigger (timerFires h fw s)
     = (clickedTrigger s \<and> pendingCallback s h \<noteq> Some (CloseCb True))"
  by (auto simp: timerFires_def pendingCallback_def Let_def openCallback_def
      closeCallback_def focusOutContinuation_def split: option.splits callback.splits)

text \<open>
  C10. While \<open>#clickedTrigger\<close> is set, every event leaves it set, except the firing of
  a pending close callback that a blur created, which resets it; a focus on the trigger
  does nothing; and no event other than a blur on the trigger puts such a callback into
  the window, so the closes of \<open>mousemove\<close>, scroll and Escape never reset the flag.
\<close>

theorem clickedTrigger_sticks:
  assumes "clickedTrigger s"
  shows "(\<not> firesBlurClose s e \<longrightarrow> clickedTrigger (step p s e))
    \<and> (firesBlurClose s e \<longrightarrow> \<not> clickedTrigger (step p s e))
    \<and> step p s TriggerFocus = s
    \<and> (e \<noteq> TriggerBlur \<longrightarrow>
         (\<forall>t\<in>set (timers (step p s e)). callback t = CloseCb True \<longrightarrow> t \<in> set (timers s)))"
proof -
  have 1: "clickedTrigger (step p s e) = (\<not> firesBlurClose s e)"
  proof (cases e)
    case (TimerFires h fw)
    with assms show ?thesis by (simp add: timerFires_clickedTrigger)
  next
    case (MouseMove ce te pos)
    with assms show ?thesis
      by (auto simp: document_onmousemove_def Let_def split: option.splits)
  qed (use assms in \<open>auto simp: trigger_onpointerdown_def trigger_onpointerenter_def
        trigger_onpointerleave_def trigger_onfocus_def trigger_onblur_def
        sharedProps_onfocusout_def setTimeout_def content_onpointerenter_def
        content_onpointerleave_def content_onpointerdown_def document_onkeydown_def
        handleScroll_def Let_def\<close>)
  have 2: "step p s TriggerFocus = s" using assms by (simp add: trigger_onfocus_def)
  have 3: "e \<noteq> TriggerBlur \<longrightarrow>
         (\<forall>t\<in>set (timers (step p s e)). callback t = CloseCb True \<longrightarrow> t \<in> set (timers s))"
    using blur_close_only_from_blur[of e _ p s] by blast
  from 1 2 3 show ?thesis by blast
qed

theorem clickedTrigger_sticks_witness:
  "clickedTrigger exClickedBlur
   \<and> \<not> firesBlurClose exClickedBlur (KeyDown ''Escape'')
   \<and> clickedTrigger (step defaultProps exClickedBlur (KeyDown ''Escape''))
   \<and> step defaultProps exClickedBlur TriggerFocus = exClickedBlur
   \<and> firesBlurClose exClickedBlur (TimerFires 2 False)
   \<and> \<not> clickedTrigger (step defaultProps exClickedBlur (TimerFires 2 False))
   \<and> clickedTrigger exClicked
   \<and> ContentPointerDown \<noteq> TriggerBlur
   \<and> timers exClicked = []
   \<and> timers (step defaultProps exClicked ContentPointerDown)
       = [Timer 2 1000 (OpenCb Pointer)]"
  using clickedTrigger_sticks[where s = exClickedBlur and p = defaultProps
      and e = "KeyDown ''Escape''"]
    clickedTrigger_sticks[where s = exClickedBlur and p = defaultProps
      and e = "TimerFires 2 False"]
    clickedTrigger_sticks[where s = exClicked and p = defaultProps
      and e = ContentPointerDown]
  by (simp add: exClickedBlur_eq exClicked_eq pendingCallback_def handler_defs)

section \<open>What the stale reason does\<close>

text \<open>
  The reason that Escape leaves behind decides the next opening, because the open
  callback keeps a reason that is set. After Escape on the tooltip opened by focus, a
  hover opens it again with reason focus; the pointer then leaves the trigger and moves
  far away from both elements, and no close is scheduled, since \<open>mousemove\<close> closes only
  when the reason is pointer.
\<close>

lemma stale_reason_keeps_hover_open:
  "\<not> isPointerInGraceArea (200, 200) (makeHullFromElements [exTrigger, exContent])"
  "run defaultProps exFocusOpen
     [KeyDown ''Escape'', TriggerPointerEnter ''mouse'', TimerFires 2 False,
      TriggerPointerLeave ''mouse'', MouseMove (Some exContent) (Some exTrigger) (200, 200)]
   = exFocusOpen\<lparr>lastHandle := 2\<rparr>"
  by (simp_all add: geometry_defs exFocusOpen_eq handler_defs)

end
